theory Spec2Isabelle
  imports Main
begin

section \<open>Data model of the document-processor client\<close>

text \<open>
  The client is a React front end: \<open>app/api.ts\<close> talks to the HTTP API, \<open>app/page.tsx\<close>
  keeps the list of jobs, \<open>components/file-upload.tsx\<close> collects the files and
  \<open>components/document-viewer.tsx\<close> renders one job. JavaScript strings are modelled as
  \<open>string\<close>, numbers that hold milliseconds or percentages as \<open>int\<close>, a thrown
  \<open>Error\<close> as a value of \<open>js_error\<close> on the left of a sum.

  The sources hold two revisions of \<open>api.ts\<close> and \<open>page.tsx\<close>. The model follows the
  pair that belongs together and that the README describes (a sidebar with the history of
  jobs): the \<open>api.ts\<close> that exports \<open>UploadJob\<close> and polls with two intervals, and the
  \<open>page.tsx\<close> that keeps a list of jobs. The other pair tracks a single job and polls at
  one fixed interval for a bounded number of attempts.

  Three interfaces of the source share field names (\<open>status\<close>, \<open>markdown\<close>,
  \<open>summary\<close>, \<open>job_id\<close>, \<open>filename\<close>), so the fields of \<open>JobStatus\<close> carry the
  prefix \<open>js_\<close> and those of \<open>UploadJob\<close> the prefix \<open>uj_\<close>; the fields of
  \<open>Job\<close> keep their names.
\<close>

datatype js_error = Error string

text \<open>\<open>interface JobStatus\<close> of \<open>api.ts\<close>: the body of a status response.\<close>

record JobStatus =
  js_job_id :: string
  js_status :: string
  js_markdown :: string
  js_summary :: string

text \<open>\<open>interface UploadJob\<close> of \<open>api.ts\<close>: one element of the upload response.\<close>

record UploadJob =
  uj_job_id :: string
  uj_filename :: string

text \<open>\<open>interface Job\<close> of \<open>page.tsx\<close>: the client's record of a job.\<close>

record Job =
  jobId :: string
  filename :: string
  status :: string
  summary :: string
  markdown :: string

section \<open>The progress mapping of the document viewer\<close>

text \<open>
  \<open>getStatusPercentage\<close> of \<open>document-viewer.tsx\<close>: a \<open>switch\<close> over the status
  string with a \<open>default\<close> branch; the cases are tried in the order of the source.
\<close>

definition getStatusPercentage :: "string \<Rightarrow> int" where
  "getStatusPercentage st =
     (if st = ''pending'' then 25
      else if st = ''processing'' then 50
      else if st = ''done'' then 100
      else if st = ''error'' then 100
      else 0)"

text \<open>\<open>getStatusLabel\<close> of the same component.\<close>

definition getStatusLabel :: "string \<Rightarrow> string" where
  "getStatusLabel st =
     (if st = ''pending'' then ''Pending - Waiting for processing''
      else if st = ''processing'' then ''Processing - Converting document''
      else if st = ''done'' then ''Complete - Document processed successfully''
      else if st = ''error'' then ''Error - Document processing failed''
      else ''Unknown status'')"

section \<open>The job list of the page\<close>

text \<open>
  \<open>Array.prototype.findIndex\<close>: the index of the first element that satisfies the
  predicate; JavaScript's \<open>-1\<close> is \<open>None\<close>.
\<close>

fun findIndex :: "('a \<Rightarrow> bool) \<Rightarrow> 'a list \<Rightarrow> nat option" where
  "findIndex p [] = None"
| "findIndex p (x # xs) =
     (if p x then Some 0
      else (case findIndex p xs of None \<Rightarrow> None | Some i \<Rightarrow> Some (Suc i)))"

text \<open>
  \<open>upsertJob\<close> of \<open>page.tsx\<close>, as the function it hands to \<open>setJobs\<close>: from the previous
  list to the next one. The index written is one \<open>findIndex\<close> returned, so it is in range.
\<close>

definition upsertJob :: "Job list \<Rightarrow> Job \<Rightarrow> Job list" where
  "upsertJob prev job =
     (case findIndex (\<lambda>j. jobId j = jobId job) prev of
        Some idx \<Rightarrow> prev[idx := job]
      | None \<Rightarrow> prev @ [job])"

text \<open>
  The records \<open>handleSubmit\<close> of \<open>page.tsx\<close> builds: \<open>newJob\<close> when the upload
  response arrives, the record of the status callback it hands to \<open>pollJobStatus\<close>, and the
  record of the \<open>catch\<close> handler attached to the promise \<open>pollJobStatus\<close> returns.
\<close>

definition newJob :: "UploadJob \<Rightarrow> Job" where
  "newJob u =
     \<lparr>jobId = uj_job_id u, filename = uj_filename u,
      status = ''pending'', summary = '''', markdown = ''''\<rparr>"

definition statusJob :: "UploadJob \<Rightarrow> JobStatus \<Rightarrow> Job" where
  "statusJob u jobStatus =
     \<lparr>jobId = uj_job_id u, filename = uj_filename u,
      status = js_status jobStatus, summary = js_summary jobStatus,
      markdown = js_markdown jobStatus\<rparr>"

definition pollFailedJob :: "UploadJob \<Rightarrow> Job" where
  "pollFailedJob u =
     \<lparr>jobId = uj_job_id u, filename = uj_filename u,
      status = ''error'', summary = '''',
      markdown = ''Error checking job status. Please try again.''\<rparr>"

text \<open>
  A callback of type \<open>(status: JobStatus) => void\<close> over a client state \<open>'s\<close>: the state
  it leaves and the exception it threw, if any. \<open>onStatusUpdate\<close> is the callback of
  \<open>handleSubmit\<close>; the state is the job list and it returns normally.
\<close>

type_synonym 's callback = "JobStatus \<Rightarrow> 's \<Rightarrow> js_error option \<times> 's"

definition onStatusUpdate :: "UploadJob \<Rightarrow> Job list callback" where
  "onStatusUpdate u jobStatus jobs = (None, upsertJob jobs (statusJob u jobStatus))"

definition onPollRejected :: "UploadJob \<Rightarrow> Job list \<Rightarrow> Job list" where
  "onPollRejected u jobs = upsertJob jobs (pollFailedJob u)"

text \<open>
  The state of the \<open>Home\<close> component and its \<open>handleSubmit\<close>, given the outcome of
  \<open>uploadDocuments\<close>. The \<open>forEach\<close> queues one \<open>upsertJob\<close> per element of the response,
  applied in order; the status callbacks run only after a status response has arrived, so
  none of them is part of this step.
\<close>

record page_state =
  pg_isUploading :: bool
  pg_jobs :: "Job list"
  pg_selectedJobId :: "string option"
  pg_error :: "string option"

definition Home_handleSubmit :: "js_error + UploadJob list \<Rightarrow> page_state \<Rightarrow> page_state" where
  "Home_handleSubmit uploaded s =
     (case uploaded of
        Inr uploadJobs \<Rightarrow>
          s\<lparr>pg_error := None,
            pg_jobs := foldl (\<lambda>js u. upsertJob js (newJob u)) (pg_jobs s) uploadJobs,
            pg_selectedJobId :=
              (case uploadJobs of [] \<Rightarrow> pg_selectedJobId s | u # _ \<Rightarrow> Some (uj_job_id u)),
            pg_isUploading := False\<rparr>
      | Inl err \<Rightarrow>
          s\<lparr>pg_error := Some ''Error uploading documents. Please try again.'',
            pg_isUploading := False\<rparr>)"

section \<open>The API client\<close>

text \<open>
  \<open>apiGet\<close> stands for \<open>apiClient.get<JobStatus>\<close>: from the request path to the body
  of the response, or to the rejection of the request (of any type \<open>'e\<close>). The
  parameter \<open>jobId\<close> of the source is \<open>jid\<close> here, \<open>jobId\<close> being a field of \<open>Job\<close>.
  \<open>getJobStatus\<close> returns the body, and replaces every rejection by one fixed \<open>Error\<close>.
\<close>

definition status_url :: "string \<Rightarrow> string" where
  "status_url jid = ''/api/v1/documents/'' @ jid"

definition getJobStatus :: "(string \<Rightarrow> 'e + JobStatus) \<Rightarrow> string \<Rightarrow> js_error + JobStatus" where
  "getJobStatus apiGet jid =
     (case apiGet (status_url jid) of
        Inr data \<Rightarrow> Inr data
      | Inl err \<Rightarrow> Inl (Error ''Failed to fetch job status. Please try again.''))"

text \<open>The three optional parameters of \<open>pollJobStatus\<close> and their defaults.\<close>

record poll_config =
  initialInterval :: int
  slowInterval :: int
  fastPollDurationMs :: int

definition default_config :: poll_config where
  "default_config = \<lparr>initialInterval = 100, slowInterval = 500, fastPollDurationMs = 5000\<rparr>"

text \<open>
  One run of the inner function \<open>poll\<close>: it either returns, or calls
  \<open>setTimeout(poll, ms)\<close>. \<open>now\<close> is the reading of \<open>Date.now()\<close> in this run. The
  \<open>try\<close> block covers the request and the callback, so an exception of either ends in the
  \<open>catch\<close> branch.
\<close>

datatype poll_action = Return | SetTimeout int

definition poll ::
  "poll_config \<Rightarrow> int \<Rightarrow> string \<Rightarrow> 's callback \<Rightarrow> (string \<Rightarrow> 'e + JobStatus) \<Rightarrow> int \<Rightarrow> 's
     \<Rightarrow> poll_action \<times> 's" where
  "poll cfg startTime jid cb apiGet now s =
     (case getJobStatus apiGet jid of
        Inl err \<Rightarrow> (SetTimeout (initialInterval cfg), s)
      | Inr st \<Rightarrow>
          (case cb st s of
             (Some err, s') \<Rightarrow> (SetTimeout (initialInterval cfg), s')
           | (None, s') \<Rightarrow>
               if js_status st = ''done'' \<or> js_status st = ''error'' then (Return, s')
               else
                 let elapsed = now - startTime;
                     interval = (if elapsed < fastPollDurationMs cfg
                                 then initialInterval cfg else slowInterval cfg)
                 in (SetTimeout interval, s')))"



section \<open>Sessions of the page\<close>

text \<open>
  What happens to the job list of \<open>Home\<close>: an upload returns (or fails) and
  \<open>handleSubmit\<close> runs; a run of \<open>poll\<close> for an uploaded job, with the callback
  \<open>handleSubmit\<close> gave it, reaches the server as it is at that moment; the user presses
  \<open>Process More Documents\<close>, which empties the list. A session is a list of such events.
  The promise \<open>pollJobStatus\<close> returns never rejects, every exception of \<open>poll\<close> being
  caught inside it, so the \<open>catch\<close> handler of \<open>handleSubmit\<close> (\<open>onPollRejected\<close>) is
  no event of a session.
\<close>

datatype 'e page_event =
  Uploaded "js_error + UploadJob list"
| Polled UploadJob poll_config int "string \<Rightarrow> 'e + JobStatus" int
| Cleared

fun page_step :: "'e page_event \<Rightarrow> page_state \<Rightarrow> page_state" where
  "page_step (Uploaded uploaded) s = Home_handleSubmit uploaded s"
| "page_step (Polled u cfg startTime apiGet now) s =
     s\<lparr>pg_jobs :=
         snd (poll cfg startTime (uj_job_id u) (onStatusUpdate u) apiGet now (pg_jobs s))\<rparr>"
| "page_step Cleared s = s\<lparr>pg_jobs := [], pg_selectedJobId := None\<rparr>"

definition page_run :: "'e page_event list \<Rightarrow> page_state \<Rightarrow> page_state" where
  "page_run evs s = foldl (\<lambda>s ev. page_step ev s) s evs"

text \<open>
  The status responses a poll event receives, each with the job it was asked for: one
  when the request succeeds, none when it fails or when the event is no poll.
\<close>

fun received :: "'e page_event \<Rightarrow> (UploadJob \<times> JobStatus) list" where
  "received (Polled u cfg startTime apiGet now) =
     (case apiGet (''/api/v1/documents/'' @ uj_job_id u) of
        Inr st \<Rightarrow> [(u, st)]
      | Inl e \<Rightarrow> [])"
| "received ev = []"

text \<open>
  The markdown of a record is empty unless its status is \<open>done\<close> or \<open>error\<close>:
  \<open>markdownOk\<close> of a status and a markdown, \<open>responseOk\<close> of the status responses an
  event receives.
\<close>

definition markdownOk :: "string \<Rightarrow> string \<Rightarrow> bool" where
  "markdownOk st md = (st = ''done'' \<or> st = ''error'' \<or> md = '''')"

definition responseOk :: "'e page_event \<Rightarrow> bool" where
  "responseOk ev =
     list_all (\<lambda>(u, st). markdownOk (js_status st) (js_markdown st)) (received ev)"

section \<open>The upload form\<close>

text \<open>
  The fields of a browser \<open>File\<close> the form reads, and the state of the \<open>FileUpload\<close>
  component (\<open>files\<close>, \<open>parser\<close>, \<open>error\<close>).
\<close>

record File =
  file_name :: string
  file_type :: string
  file_size :: nat

record upload_state =
  up_files :: "File list"
  up_parser :: string
  up_error :: "string option"

definition init_upload :: upload_state where
  "init_upload = \<lparr>up_files = [], up_parser = ''pypdf'', up_error = None\<rparr>"

definition isPdf :: "File \<Rightarrow> bool" where
  "isPdf file = (file_type file = ''application/pdf'')"

text \<open>\<open>onDrop\<close>: the three state updates in the order of the source.\<close>

definition onDrop :: "File list \<Rightarrow> upload_state \<Rightarrow> upload_state" where
  "onDrop acceptedFiles s =
     (let s1 = s\<lparr>up_error := None\<rparr>;
          pdfFiles = filter isPdf acceptedFiles;
          s2 = (if length pdfFiles \<noteq> length acceptedFiles
                then s1\<lparr>up_error := Some ''Only PDF files are allowed.''\<rparr> else s1)
      in if length pdfFiles > 0 then s2\<lparr>up_files := pdfFiles\<rparr> else s2)"

text \<open>
  \<open>handleSubmit\<close> of the form: the state it leaves and the call of \<open>onSubmit\<close> it makes,
  if any. \<open>!parser\<close> holds of the empty string only.
\<close>

definition FileUpload_handleSubmit :: "upload_state \<Rightarrow> upload_state \<times> (File list \<times> string) option" where
  "FileUpload_handleSubmit s =
     (if length (up_files s) = 0
      then (s\<lparr>up_error := Some ''Please upload at least one PDF file''\<rparr>, None)
      else if up_parser s = ''''
      then (s\<lparr>up_error := Some ''Please select a parser''\<rparr>, None)
      else (s, Some (up_files s, up_parser s)))"

text \<open>
  What a user can do to the form: drop files, pick a parser, press the button. A session
  is a list of such events; \<open>FileUpload_run\<close> returns the final state and the calls of
  \<open>onSubmit\<close> made, in order.
\<close>

datatype ui_event = Drop "File list" | SetParser string | Submit

fun FileUpload_step :: "ui_event \<Rightarrow> upload_state \<Rightarrow> upload_state \<times> (File list \<times> string) option" where
  "FileUpload_step (Drop acceptedFiles) s = (onDrop acceptedFiles s, None)"
| "FileUpload_step (SetParser v) s = (s\<lparr>up_parser := v\<rparr>, None)"
| "FileUpload_step Submit s = FileUpload_handleSubmit s"

fun FileUpload_run :: "ui_event list \<Rightarrow> upload_state \<Rightarrow> upload_state \<times> (File list \<times> string) list" where
  "FileUpload_run [] s = (s, [])"
| "FileUpload_run (ev # evs) s =
     (case FileUpload_step ev s of
        (s', call) \<Rightarrow>
          (case FileUpload_run evs s' of
             (s'', calls) \<Rightarrow> (s'', (case call of None \<Rightarrow> calls | Some c \<Rightarrow> c # calls))))"

section \<open>The document viewer\<close>

text \<open>
  What \<open>DocumentViewer\<close> renders: nothing when \<open>jobId\<close> is \<open>null\<close> or the empty
  string (\<open>!jobId\<close>); otherwise the status card with the label and the percentage, then
  the summary and the content when the status is \<open>done\<close>, and the error card when it is
  \<open>error\<close>. The error card shows \<open>markdown || 'Unknown error'\<close>. The properties
  \<open>jobId\<close>, \<open>status\<close>, \<open>markdown\<close> and \<open>summary\<close> are \<open>jid\<close>, \<open>st\<close>,
  \<open>md\<close> and \<open>sm\<close> here.
\<close>

datatype card =
  StatusCard string int | SummaryCard string | ContentCard string | ErrorCard string

definition errorText :: "string \<Rightarrow> string" where
  "errorText md = (if md = '''' then ''Unknown error'' else md)"

definition DocumentViewer :: "string option \<Rightarrow> string \<Rightarrow> string \<Rightarrow> string \<Rightarrow> card list option" where
  "DocumentViewer jid st md sm =
     (if jid = None \<or> jid = Some '''' then None
      else Some
        ([StatusCard (getStatusLabel st) (getStatusPercentage st)] @
         (if st = ''done'' then [SummaryCard sm, ContentCard md] else []) @
         (if st = ''error'' then [ErrorCard (errorText md)] else [])))"

section \<open>The queue of the pipeline\<close>

text \<open>
  Modelled from the spec: the Queue of the pipeline (section 4.1 and the glossary). Its
  code, the worker and its queue client, is not among the sources; only the script that
  starts the worker is. The log is append-only and entries are named by their position in
  it. A consumer group keeps how many entries it has delivered for the first time, how many
  delivery tokens it has issued, its pending deliveries (delivered and not acknowledged), the
  entries made claimable again by \<open>reclaim\<close>, and the entries marked as processed. A
  delivery token names one delivery of one entry. The parameter \<open>group\<close> of the spec is
  \<open>grp\<close> here.
\<close>

record QueueEntry =
  qe_job_id :: string
  qe_parser_kind :: string

record Delivery =
  dl_token :: nat
  dl_entry :: nat
  dl_consumer :: string
  dl_at :: int

record ConsumerGroup =
  cg_delivered :: nat
  cg_tokens :: nat
  cg_pending :: "Delivery list"
  cg_claimable :: "nat list"
  cg_processed :: "nat list"

record Queue =
  q_log :: "QueueEntry list"
  q_groups :: "string \<Rightarrow> ConsumerGroup"

definition empty_group :: ConsumerGroup where
  "empty_group =
     \<lparr>cg_delivered = 0, cg_tokens = 0, cg_pending = [], cg_claimable = [], cg_processed = []\<rparr>"

definition empty_queue :: Queue where
  "empty_queue = \<lparr>q_log = [], q_groups = (\<lambda>grp. empty_group)\<rparr>"

text \<open>Modelled from the spec: \<open>enqueue(entry)\<close> appends to the log.\<close>

definition enqueue :: "QueueEntry \<Rightarrow> Queue \<Rightarrow> Queue" where
  "enqueue entry q = q\<lparr>q_log := q_log q @ [entry]\<rparr>"

text \<open>
  Modelled from the spec: \<open>claim(group, consumer_id, block_timeout)\<close> returns at most one
  entry with a delivery token, a reclaimable entry or else a new one, and none when there
  is neither (the timeout). \<open>deliver\<close> issues the token and records the delivery as pending.
\<close>

definition deliver ::
  "string \<Rightarrow> string \<Rightarrow> int \<Rightarrow> nat \<Rightarrow> ConsumerGroup \<Rightarrow> Queue \<Rightarrow> (nat \<times> nat) option \<times> Queue" where
  "deliver grp consumer now e g q =
     (let d = \<lparr>dl_token = cg_tokens g, dl_entry = e, dl_consumer = consumer, dl_at = now\<rparr>;
          g' = g\<lparr>cg_tokens := Suc (cg_tokens g), cg_pending := cg_pending g @ [d]\<rparr>
      in (Some (e, dl_token d), q\<lparr>q_groups := (q_groups q)(grp := g')\<rparr>))"

definition claim :: "string \<Rightarrow> string \<Rightarrow> int \<Rightarrow> Queue \<Rightarrow> (nat \<times> nat) option \<times> Queue" where
  "claim grp consumer now q =
     (let g = q_groups q grp in
      case cg_claimable g of
        e # rest \<Rightarrow> deliver grp consumer now e (g\<lparr>cg_claimable := rest\<rparr>) q
      | [] \<Rightarrow>
          if cg_delivered g < length (q_log q)
          then deliver grp consumer now (cg_delivered g)
                 (g\<lparr>cg_delivered := Suc (cg_delivered g)\<rparr>) q
          else (None, q))"

text \<open>
  Modelled from the spec: \<open>ack(group, delivery_token)\<close> marks the entry of that delivery
  as processed and ends the delivery; a token with no pending delivery changes nothing.
\<close>

definition ack :: "string \<Rightarrow> nat \<Rightarrow> Queue \<Rightarrow> Queue" where
  "ack grp token q =
     (let g = q_groups q grp in
      case find (\<lambda>d. dl_token d = token) (cg_pending g) of
        None \<Rightarrow> q
      | Some d \<Rightarrow>
          q\<lparr>q_groups := (q_groups q)(grp :=
              g\<lparr>cg_pending := filter (\<lambda>d. dl_token d \<noteq> token) (cg_pending g),
                cg_processed := List.insert (dl_entry d) (cg_processed g)\<rparr>)\<rparr>)"

text \<open>
  Modelled from the spec: \<open>reclaim(group, idle_threshold)\<close> returns the entries delivered
  more than \<open>idle_threshold\<close> ago and never acknowledged, and makes them claimable again.
\<close>

definition reclaim :: "string \<Rightarrow> int \<Rightarrow> int \<Rightarrow> Queue \<Rightarrow> nat list \<times> Queue" where
  "reclaim grp idle_threshold now q =
     (let g = q_groups q grp;
          idle = filter (\<lambda>d. now - dl_at d > idle_threshold) (cg_pending g);
          g' = g\<lparr>cg_pending := filter (\<lambda>d. \<not> now - dl_at d > idle_threshold) (cg_pending g),
                 cg_claimable := cg_claimable g @ map dl_entry idle\<rparr>
      in (map dl_entry idle, q\<lparr>q_groups := (q_groups q)(grp := g')\<rparr>))"

text \<open>
  Modelled from the spec: the workers of a pool run concurrently and share nothing but the
  queue (section 5), whose operations are the four above; a history of the queue is the
  list of the operations in the order in which the queue served them, by any consumers
  and for any groups.
\<close>

datatype queue_op =
  Enqueue QueueEntry
| Claim string string int
| Ack string nat
| Reclaim string int int

fun apply_op :: "queue_op \<Rightarrow> Queue \<Rightarrow> Queue" where
  "apply_op (Enqueue entry) q = enqueue entry q"
| "apply_op (Claim grp consumer now) q = snd (claim grp consumer now q)"
| "apply_op (Ack grp token) q = ack grp token q"
| "apply_op (Reclaim grp idle_threshold now) q = snd (reclaim grp idle_threshold now q)"

definition run_queue :: "queue_op list \<Rightarrow> Queue \<Rightarrow> Queue" where
  "run_queue ops q = foldl (\<lambda>q op. apply_op op q) q ops"

text \<open>
  The invariant of a consumer group: the entries of the pending deliveries and the
  claimable entries are pairwise different, and each has been delivered before.
\<close>

definition group_ok :: "ConsumerGroup \<Rightarrow> bool" where
  "group_ok g =
     (distinct (map dl_entry (cg_pending g) @ cg_claimable g) \<and>
      list_all (\<lambda>e. e < cg_delivered g) (map dl_entry (cg_pending g) @ cg_claimable g))"

definition queue_ok :: "Queue \<Rightarrow> bool" where
  "queue_ok q = (\<forall>grp. group_ok (q_groups q grp))"

section \<open>The status lookup of the pipeline\<close>

text \<open>
  Modelled from the spec: the Job Store, a table from job identifiers to status records,
  and the lookup \<open>get_status(job_id) -> Job | NotFound\<close> exposed to polling clients
  (sections 2 and 6). The HTTP layer that serves it is not among the sources.
\<close>

datatype lookup = Found JobStatus | NotFound

definition get_status :: "(string \<rightharpoonup> JobStatus) \<Rightarrow> string \<Rightarrow> lookup" where
  "get_status store job_id =
     (case store job_id of Some job \<Rightarrow> Found job | None \<Rightarrow> NotFound)"

text \<open>
  Modelled from the spec: the lookup behind the route the client and the Postman
  collection use, \<open>/api/v1/documents/{job_id}\<close>. The rest of the path is the job
  identifier; a job the store holds is the body of the response, and \<open>NotFound\<close>, like a
  path outside the route, is a response the client's request rejects.
\<close>

datatype http_failure = NotFoundResponse

fun stripPrefix :: "string \<Rightarrow> string \<Rightarrow> string option" where
  "stripPrefix [] s = Some s"
| "stripPrefix (p # ps) [] = None"
| "stripPrefix (p # ps) (c # cs) = (if p = c then stripPrefix ps cs else None)"

definition statusEndpoint :: "(string \<rightharpoonup> JobStatus) \<Rightarrow> string \<Rightarrow> http_failure + JobStatus" where
  "statusEndpoint store url =
     (case stripPrefix ''/api/v1/documents/'' url of
        None \<Rightarrow> Inl NotFoundResponse
      | Some job_id \<Rightarrow>
          (case get_status store job_id of
             Found job \<Rightarrow> Inr job
           | NotFound \<Rightarrow> Inl NotFoundResponse))"

section \<open>Example values\<close>

text \<open>
  Two upload responses, status responses of the first job, a server that holds one
  status record, a server that rejects every request, two dropped files, the page before
  any upload and a queue entry.
\<close>

definition upload1 :: UploadJob where
  "upload1 = \<lparr>uj_job_id = ''job-1'', uj_filename = ''a.pdf''\<rparr>"

definition upload2 :: UploadJob where
  "upload2 = \<lparr>uj_job_id = ''job-2'', uj_filename = ''b.pdf''\<rparr>"

definition statusOf :: "string \<Rightarrow> string \<Rightarrow> string \<Rightarrow> JobStatus" where
  "statusOf st md sm =
     \<lparr>js_job_id = ''job-1'', js_status = st, js_markdown = md, js_summary = sm\<rparr>"

definition serverWith :: "JobStatus \<Rightarrow> string \<Rightarrow> unit + JobStatus" where
  "serverWith st url = (if url = status_url (js_job_id st) then Inr st else Inl ())"

definition serverDown :: "string \<Rightarrow> unit + JobStatus" where
  "serverDown url = Inl ()"

definition pdfFile :: File where
  "pdfFile = \<lparr>file_name = ''a.pdf'', file_type = ''application/pdf'', file_size = 1024\<rparr>"

definition textFile :: File where
  "textFile = \<lparr>file_name = ''notes.txt'', file_type = ''text/plain'', file_size = 12\<rparr>"

definition init_page :: page_state where
  "init_page =
     \<lparr>pg_isUploading = False, pg_jobs = [], pg_selectedJobId = None, pg_error = None\<rparr>"

definition entry1 :: QueueEntry where
  "entry1 = \<lparr>qe_job_id = ''job-1'', qe_parser_kind = ''pypdf''\<rparr>"


definition entry2 :: QueueEntry where
  "entry2 = \<lparr>qe_job_id = ''job-2'', qe_parser_kind = ''gemini''\<rparr>"

definition ops1 :: "queue_op list" where
  "ops1 =
     [Enqueue entry1, Enqueue entry2, Claim ''workers'' ''w1'' 10, Claim ''workers'' ''w2'' 11,
      Reclaim ''workers'' 30 45, Claim ''workers'' ''w2'' 46]"

definition session1 :: "unit page_event list" where
  "session1 =
     [Uploaded (Inr [upload1, upload2]),
      Polled upload1 default_config 0 (serverWith (statusOf ''processing'' '''' '''')) 40,
      Polled upload2 default_config 0 serverDown 45,
      Polled upload1 default_config 0
        (serverWith (statusOf ''error'' ''Failed to parse PDF'' '''')) 150]"

section \<open>Properties of the list search\<close>

lemma findIndex_None: "findIndex p xs = None \<longleftrightarrow> (\<forall>x \<in> set xs. \<not> p x)"
  by (induction xs) (auto split: option.splits)

lemma findIndex_Some:
  "findIndex p xs = Some i \<Longrightarrow> i < length xs \<and> p (xs ! i) \<and> (\<forall>k < i. \<not> p (xs ! k))"
proof (induction xs arbitrary: i)
  case Nil
  then show ?case by simp
next
  case (Cons x xs)
  show ?case
  proof (cases "p x")
    case True
    with Cons.prems show ?thesis by simp
  next
    case False
    with Cons.prems obtain j where j: "findIndex p xs = Some j" "i = Suc j"
      by (auto split: option.splits)
    from Cons.IH [OF j(1)] False j(2) show ?thesis
      by (auto simp: nth_Cons split: nat.splits)
  qed
qed

lemma findIndex_exists: "x \<in> set xs \<Longrightarrow> p x \<Longrightarrow> \<exists>i. findIndex p xs = Some i"
  by (cases "findIndex p xs") (auto simp: findIndex_None)

section \<open>The progress mapping is total and reaches 100 on the terminal states\<close>

text \<open>
  C10. \<open>getStatusPercentage\<close> returns 25 for \<open>pending\<close>, 50 for \<open>processing\<close>, 100
  for \<open>done\<close>, 100 for \<open>error\<close> and 0 for every other string; so it is 100 exactly on
  the two terminal states.
\<close>

theorem getStatusPercentage_table:
  "getStatusPercentage ''pending'' = 25 \<and>
   getStatusPercentage ''processing'' = 50 \<and>
   getStatusPercentage ''done'' = 100 \<and>
   getStatusPercentage ''error'' = 100 \<and>
   (st \<notin> {''pending'', ''processing'', ''done'', ''error''} \<longrightarrow> getStatusPercentage st = 0) \<and>
   (getStatusPercentage st = 100 \<longleftrightarrow> st = ''done'' \<or> st = ''error'')"
  by (simp add: getStatusPercentage_def)

theorem getStatusPercentage_table_witness:
  "''queued'' \<notin> {''pending'', ''processing'', ''done'', ''error''} \<and>
   getStatusPercentage ''queued'' = 0 \<and>
   getStatusPercentage ''queued'' \<noteq> 100"
  using getStatusPercentage_table [of "''queued''"] by simp

section \<open>\<open>upsertJob\<close> keeps one entry per job\<close>

lemma upsertJob_hit:
  assumes "findIndex (\<lambda>j. jobId j = jobId job) prev = Some idx"
  shows "upsertJob prev job = prev[idx := job]" "idx < length prev"
    "jobId (prev ! idx) = jobId job"
  using assms findIndex_Some [OF assms] by (simp_all add: upsertJob_def)

lemma upsertJob_miss:
  assumes "findIndex (\<lambda>j. jobId j = jobId job) prev = None"
  shows "upsertJob prev job = prev @ [job]" "\<forall>j \<in> set prev. jobId j \<noteq> jobId job"
proof -
  show "upsertJob prev job = prev @ [job]"
    using assms by (simp add: upsertJob_def)
  show "\<forall>j \<in> set prev. jobId j \<noteq> jobId job"
    using assms by (simp add: findIndex_None)
qed

lemma map_jobId_upsertJob_hit:
  assumes "findIndex (\<lambda>j. jobId j = jobId job) prev = Some idx"
  shows "map jobId (upsertJob prev job) = map jobId prev"
proof -
  from upsertJob_hit [OF assms]
  have "map jobId (upsertJob prev job) = (map jobId prev)[idx := map jobId prev ! idx]"
    by (simp add: map_update)
  then show ?thesis by simp
qed

lemma upsertJob_mem: "job \<in> set (upsertJob prev job)"
proof (cases "findIndex (\<lambda>j. jobId j = jobId job) prev")
  case None
  then show ?thesis by (simp add: upsertJob_def)
next
  case (Some idx)
  from upsertJob_hit [OF Some] show ?thesis by (simp add: set_update_memI)
qed

lemma upsertJob_keeps:
  assumes "j \<in> set prev" "jobId j \<noteq> jobId job"
  shows "j \<in> set (upsertJob prev job)"
proof (cases "findIndex (\<lambda>j. jobId j = jobId job) prev")
  case None
  with assms show ?thesis by (simp add: upsertJob_def)
next
  case (Some idx)
  note hit = upsertJob_hit [OF Some]
  from assms(1) obtain k where k: "k < length prev" "prev ! k = j"
    by (auto simp: in_set_conv_nth)
  with assms(2) hit(3) have "k \<noteq> idx" by auto
  with k hit(1) have "upsertJob prev job ! k = j" "k < length (upsertJob prev job)"
    by simp_all
  then show ?thesis by (metis nth_mem)
qed

text \<open>
  C9. \<open>upsertJob\<close> preserves the uniqueness of job ids in the client's job list: if the
  list holds at most one entry per \<open>jobId\<close>, so does the result, and the result contains
  the given job. If an entry with that \<open>jobId\<close> existed, it is the only one, it is replaced
  at its position, and the length of the list and all other entries are unchanged;
  otherwise the job is appended at the end.
\<close>

theorem upsertJob_unique:
  assumes "distinct (map jobId prev)"
  shows "distinct (map jobId (upsertJob prev job)) \<and>
         job \<in> set (upsertJob prev job) \<and>
         (if \<exists>j \<in> set prev. jobId j = jobId job
          then \<exists>idx < length prev.
                 jobId (prev ! idx) = jobId job \<and>
                 (\<forall>k < length prev. k \<noteq> idx \<longrightarrow> jobId (prev ! k) \<noteq> jobId job) \<and>
                 length (upsertJob prev job) = length prev \<and>
                 upsertJob prev job ! idx = job \<and>
                 (\<forall>k < length prev. k \<noteq> idx \<longrightarrow> upsertJob prev job ! k = prev ! k)
          else upsertJob prev job = prev @ [job])"
proof (cases "findIndex (\<lambda>j. jobId j = jobId job) prev")
  case None
  from upsertJob_miss [OF None] have "jobId job \<notin> set (map jobId prev)" by auto
  with upsertJob_miss [OF None] assms show ?thesis by simp
next
  case (Some idx)
  note hit = upsertJob_hit [OF Some]
  have d: "distinct (map jobId (upsertJob prev job))"
    using assms map_jobId_upsertJob_hit [OF Some] by simp
  have m: "job \<in> set (upsertJob prev job)"
    by (rule upsertJob_mem)
  have ex: "\<exists>j \<in> set prev. jobId j = jobId job"
    using hit(2,3) nth_mem by blast
  have others: "\<forall>k < length prev. k \<noteq> idx \<longrightarrow> jobId (prev ! k) \<noteq> jobId job"
  proof (intro allI impI)
    fix k assume k: "k < length prev" "k \<noteq> idx"
    from assms k hit(2) have "map jobId prev ! k \<noteq> map jobId prev ! idx"
      by (simp add: nth_eq_iff_index_eq del: nth_map)
    with k hit show "jobId (prev ! k) \<noteq> jobId job" by simp
  qed
  have upd: "length (upsertJob prev job) = length prev"
    "upsertJob prev job ! idx = job"
    "\<forall>k < length prev. k \<noteq> idx \<longrightarrow> upsertJob prev job ! k = prev ! k"
    using hit by simp_all
  from d m ex others upd hit(2,3) show ?thesis by auto
qed

text \<open>
  The theorem at a list of two jobs: the status update of the first job replaces it in
  place, and a job with a new id is appended.
\<close>

theorem upsertJob_unique_witness:
  "distinct (map jobId [newJob upload1, newJob upload2]) \<and>
   upsertJob [newJob upload1, newJob upload2]
       (statusJob upload1 (statusOf ''done'' ''# T'' ''sum'')) =
     [statusJob upload1 (statusOf ''done'' ''# T'' ''sum''), newJob upload2] \<and>
   upsertJob [newJob upload1] (newJob upload2) = [newJob upload1, newJob upload2]"
  using upsertJob_unique [of "[newJob upload1, newJob upload2]"
      "statusJob upload1 (statusOf ''done'' ''# T'' ''sum'')"]
    upsertJob_unique [of "[newJob upload1]" "newJob upload2"]
  by (simp add: upsertJob_def newJob_def statusJob_def upload1_def upload2_def)

section \<open>Every job starts as pending\<close>

lemma newJob_fields:
  "jobId (newJob u) = uj_job_id u" "filename (newJob u) = uj_filename u"
  "status (newJob u) = ''pending''" "markdown (newJob u) = ''''" "summary (newJob u) = ''''"
  by (simp_all add: newJob_def)

lemma foldl_upsert_pending:
  "u \<in> set uploadJobs \<Longrightarrow>
   \<exists>j \<in> set (foldl (\<lambda>js u. upsertJob js (newJob u)) prev uploadJobs).
     jobId j = uj_job_id u \<and> status j = ''pending'' \<and> markdown j = '''' \<and> summary j = ''''"
proof (induction uploadJobs rule: rev_induct)
  case Nil
  then show ?case by simp
next
  case (snoc x xs)
  let ?js = "foldl (\<lambda>js u. upsertJob js (newJob u)) prev xs"
  have new: "newJob x \<in> set (upsertJob ?js (newJob x))" by (rule upsertJob_mem)
  show ?case
  proof (cases "uj_job_id u = uj_job_id x")
    case True
    have "jobId (newJob x) = uj_job_id u \<and> status (newJob x) = ''pending'' \<and>
          markdown (newJob x) = '''' \<and> summary (newJob x) = ''''"
      using True by (simp add: newJob_fields)
    with new show ?thesis by simp blast
  next
    case False
    with snoc.prems have "u \<in> set xs" by auto
    from snoc.IH [OF this] obtain j where j: "j \<in> set ?js" "jobId j = uj_job_id u"
      "status j = ''pending''" "markdown j = ''''" "summary j = ''''" by blast
    from j(2) False have "jobId j \<noteq> jobId (newJob x)" by (simp add: newJob_fields)
    from upsertJob_keeps [OF j(1) this] j show ?thesis by auto
  qed
qed

lemma foldl_upsert_fresh:
  "distinct (map uj_job_id uploadJobs) \<Longrightarrow>
   \<forall>u \<in> set uploadJobs. \<forall>j \<in> set prev. jobId j \<noteq> uj_job_id u \<Longrightarrow>
   foldl (\<lambda>js u. upsertJob js (newJob u)) prev uploadJobs = prev @ map newJob uploadJobs"
proof (induction uploadJobs arbitrary: prev)
  case Nil
  then show ?case by simp
next
  case (Cons u us)
  from Cons.prems(2) have "findIndex (\<lambda>j. jobId j = jobId (newJob u)) prev = None"
    by (simp add: findIndex_None newJob_fields)
  then have step: "upsertJob prev (newJob u) = prev @ [newJob u]" by (simp add: upsertJob_def)
  have "\<forall>v \<in> set us. \<forall>j \<in> set (prev @ [newJob u]). jobId j \<noteq> uj_job_id v"
    using Cons.prems by (auto simp: newJob_fields)
  from Cons.IH [OF _ this] Cons.prems(1) step show ?case by simp
qed

text \<open>
  C8. Every job begins as pending with no output: the record \<open>handleSubmit\<close> creates for
  an element of the upload response has the status \<open>pending\<close>, an empty markdown and an
  empty summary, and after \<open>handleSubmit\<close> the job list holds such a record for every
  element of the response. When the ids of the response are distinct and new to the list,
  the list is the old one followed by one pending record per element, in order. Any other
  status reaches the list later, through the status callback.
\<close>

theorem Home_handleSubmit_creates_pending:
  "jobId (newJob u) = uj_job_id u \<and> filename (newJob u) = uj_filename u \<and>
   status (newJob u) = ''pending'' \<and> markdown (newJob u) = '''' \<and> summary (newJob u) = '''' \<and>
   (u \<in> set uploadJobs \<longrightarrow>
      (\<exists>j \<in> set (pg_jobs (Home_handleSubmit (Inr uploadJobs) s)).
         jobId j = uj_job_id u \<and> status j = ''pending'' \<and> markdown j = '''' \<and>
         summary j = '''')) \<and>
   (distinct (map uj_job_id uploadJobs) \<and>
    (\<forall>v \<in> set uploadJobs. \<forall>j \<in> set (pg_jobs s). jobId j \<noteq> uj_job_id v) \<longrightarrow>
      pg_jobs (Home_handleSubmit (Inr uploadJobs) s) = pg_jobs s @ map newJob uploadJobs)"
proof -
  have jobs: "pg_jobs (Home_handleSubmit (Inr uploadJobs) s) =
      foldl (\<lambda>js u. upsertJob js (newJob u)) (pg_jobs s) uploadJobs"
    by (simp add: Home_handleSubmit_def)
  show ?thesis
    unfolding jobs
    using foldl_upsert_pending [of u uploadJobs "pg_jobs s"]
      foldl_upsert_fresh [of uploadJobs "pg_jobs s"]
    by (simp add: newJob_fields)
qed

text \<open>The theorem at an upload of two files into the empty page.\<close>

theorem Home_handleSubmit_creates_pending_witness:
  "upload2 \<in> set [upload1, upload2] \<and> distinct (map uj_job_id [upload1, upload2]) \<and>
   pg_jobs (Home_handleSubmit (Inr [upload1, upload2]) init_page) =
     [\<lparr>jobId = ''job-1'', filename = ''a.pdf'', status = ''pending'', summary = '''',
       markdown = ''''\<rparr>,
      \<lparr>jobId = ''job-2'', filename = ''b.pdf'', status = ''pending'', summary = '''',
       markdown = ''''\<rparr>]"
  using Home_handleSubmit_creates_pending [of upload2 "[upload1, upload2]" init_page]
  by (simp add: upload1_def upload2_def init_page_def newJob_def)

section \<open>The status lookup\<close>

lemma stripPrefix_append: "stripPrefix p (p @ s) = Some s"
  by (induction p) simp_all

lemma statusEndpoint_url:
  "statusEndpoint store (status_url jid) =
     (case store jid of Some job \<Rightarrow> Inr job | None \<Rightarrow> Inl NotFoundResponse)"
  using stripPrefix_append [of "''/api/v1/documents/''" jid]
  by (simp add: statusEndpoint_def status_url_def get_status_def split: option.splits)

text \<open>
  C6. The status lookup returns the Job record or a distinguishable NotFound outcome. For
  every job identifier and every Job Store, \<open>get_status\<close> yields the job exactly when the
  store holds it under that identifier and \<open>NotFound\<close> exactly when it holds none. Against
  this lookup the client's \<open>getJobStatus\<close> returns the record of that very job exactly
  when the lookup finds it, and raises exactly when the lookup signals \<open>NotFound\<close>.
  Against any server, \<open>getJobStatus\<close> asks for the path of that job, returns the record
  the response carries, and raises the one \<open>Error\<close> it has exactly when the request is
  rejected; so the client tells a missing job from a record, and not from another failure.
\<close>

theorem get_status_job_or_not_found:
  "(get_status store jid = Found job \<longleftrightarrow> store jid = Some job) \<and>
   (get_status store jid = NotFound \<longleftrightarrow> store jid = None) \<and>
   (getJobStatus (statusEndpoint store) jid = Inr job \<longleftrightarrow>
      get_status store jid = Found job) \<and>
   (getJobStatus (statusEndpoint store) jid =
      Inl (Error ''Failed to fetch job status. Please try again.'') \<longleftrightarrow>
    get_status store jid = NotFound) \<and>
   (getJobStatus apiGet jid = Inr job \<longleftrightarrow>
      apiGet (''/api/v1/documents/'' @ jid) = Inr job) \<and>
   (getJobStatus apiGet jid = Inl (Error ''Failed to fetch job status. Please try again.'') \<longleftrightarrow>
      (\<exists>e. apiGet (''/api/v1/documents/'' @ jid) = Inl e))"
proof -
  have 1: "get_status store jid = Found job \<longleftrightarrow> store jid = Some job"
    by (simp add: get_status_def split: option.splits)
  have 2: "get_status store jid = NotFound \<longleftrightarrow> store jid = None"
    by (simp add: get_status_def split: option.splits)
  have 3: "getJobStatus (statusEndpoint store) jid = Inr job \<longleftrightarrow> store jid = Some job"
    by (simp add: getJobStatus_def statusEndpoint_url split: option.splits)
  have 4: "getJobStatus (statusEndpoint store) jid =
      Inl (Error ''Failed to fetch job status. Please try again.'') \<longleftrightarrow> store jid = None"
    by (simp add: getJobStatus_def statusEndpoint_url split: option.splits)
  have 5: "getJobStatus apiGet jid = Inr job \<longleftrightarrow>
      apiGet (''/api/v1/documents/'' @ jid) = Inr job"
    by (simp add: getJobStatus_def status_url_def split: sum.splits)
  have 6: "getJobStatus apiGet jid =
      Inl (Error ''Failed to fetch job status. Please try again.'') \<longleftrightarrow>
      (\<exists>e. apiGet (''/api/v1/documents/'' @ jid) = Inl e)"
    by (simp add: getJobStatus_def status_url_def split: sum.splits)
  from 1 2 3 4 5 6 show ?thesis by simp
qed

section \<open>The poll loop\<close>




lemma poll_failed:
  "apiGet (status_url jid) = Inl e \<Longrightarrow>
   poll cfg t0 jid cb apiGet now s = (SetTimeout (initialInterval cfg), s)"
  by (simp add: poll_def getJobStatus_def)



lemma poll_nonterminal:
  assumes "apiGet (status_url jid) = Inr st" "fst (cb st s) = None"
    "js_status st \<noteq> ''done''" "js_status st \<noteq> ''error''"
  shows "fst (poll cfg t0 jid cb apiGet now s) =
         SetTimeout (if now - t0 < fastPollDurationMs cfg then initialInterval cfg
                     else slowInterval cfg)"
proof -
  from assms(2) obtain s' where "cb st s = (None, s')" by (cases "cb st s") auto
  with assms show ?thesis by (simp add: poll_def getJobStatus_def Let_def)
qed








section \<open>The delay between two polls\<close>

text \<open>
  C7, as stated: in every run of \<open>poll\<close> the delay before the next request is
  \<open>initialInterval\<close> while less than \<open>fastPollDurationMs\<close> have elapsed and
  \<open>slowInterval\<close> afterwards. It fails at a run whose request fails five seconds after the
  start: the \<open>catch\<close> branch retries after \<open>initialInterval\<close>, not \<open>slowInterval\<close>.
\<close>

theorem poll_interval_counterexample:
  "\<not> (5000 - 0 < fastPollDurationMs default_config) \<and>
   fst (poll default_config 0 ''job-1'' (onStatusUpdate upload1) serverDown 5000
          [newJob upload1]) \<noteq> SetTimeout (slowInterval default_config)"
  by (simp add: poll_def getJobStatus_def serverDown_def default_config_def)

text \<open>
  C7, amended. In a run of \<open>poll\<close> whose request succeeds with a status other than
  \<open>done\<close> and \<open>error\<close> and whose callback returns, the delay before the next request is
  \<open>initialInterval\<close> while the time elapsed since the start is below
  \<open>fastPollDurationMs\<close>, and \<open>slowInterval\<close> afterwards; in a run whose request fails
  the delay is \<open>initialInterval\<close> whatever time has elapsed. The defaults are 100, 500
  and 5000 milliseconds.
\<close>

theorem poll_interval:
  "(apiGet (status_url jid) = Inr st \<and> fst (cb st s) = None \<and>
      js_status st \<noteq> ''done'' \<and> js_status st \<noteq> ''error'' \<longrightarrow>
      fst (poll cfg t0 jid cb apiGet now s) =
        SetTimeout (if now - t0 < fastPollDurationMs cfg then initialInterval cfg
                    else slowInterval cfg)) \<and>
   (apiGet (status_url jid) = Inl e \<longrightarrow>
      fst (poll cfg t0 jid cb apiGet now s) = SetTimeout (initialInterval cfg)) \<and>
   initialInterval default_config = 100 \<and> slowInterval default_config = 500 \<and>
   fastPollDurationMs default_config = 5000"
  using poll_nonterminal [of apiGet jid st cb s cfg t0 now]
  by (simp add: poll_failed default_config_def)

text \<open>
  The theorem with the defaults: 100 ms one millisecond before the five seconds are over,
  500 ms at five seconds, and 100 ms after a failed request at five seconds.
\<close>

theorem poll_interval_witness:
  "fst (poll default_config 0 ''job-1'' (onStatusUpdate upload1)
          (serverWith (statusOf ''processing'' '''' '''')) 4999 [newJob upload1]) =
     SetTimeout 100 \<and>
   fst (poll default_config 0 ''job-1'' (onStatusUpdate upload1)
          (serverWith (statusOf ''processing'' '''' '''')) 5000 [newJob upload1]) =
     SetTimeout 500 \<and>
   fst (poll default_config 0 ''job-1'' (onStatusUpdate upload1)
          serverDown 5000 [newJob upload1]) = SetTimeout 100"
  using poll_interval [of "serverWith (statusOf ''processing'' '''' '''')" "''job-1''"
      "statusOf ''processing'' '''' ''''" "onStatusUpdate upload1" "[newJob upload1]"
      default_config 0 4999 "()"]
    poll_interval [of "serverWith (statusOf ''processing'' '''' '''')" "''job-1''"
      "statusOf ''processing'' '''' ''''" "onStatusUpdate upload1" "[newJob upload1]"
      default_config 0 5000 "()"]
    poll_interval [of serverDown "''job-1''"
      "statusOf ''processing'' '''' ''''" "onStatusUpdate upload1" "[newJob upload1]"
      default_config 0 5000 "()"]
  by (simp add: serverWith_def serverDown_def statusOf_def status_url_def onStatusUpdate_def)

section \<open>Only PDF files leave the upload form\<close>

lemma onDrop_files:
  "up_files (onDrop acceptedFiles s) =
     (if filter isPdf acceptedFiles = [] then up_files s else filter isPdf acceptedFiles)"
  by (simp add: onDrop_def Let_def)

lemma FileUpload_step_inv:
  "list_all isPdf (up_files s) \<Longrightarrow> list_all isPdf (up_files (fst (FileUpload_step ev s)))"
  by (cases ev) (simp_all add: onDrop_files FileUpload_handleSubmit_def list_all_iff)

lemma FileUpload_handleSubmit_call:
  "snd (FileUpload_handleSubmit s) = Some (fs, p) \<longleftrightarrow>
     fs = up_files s \<and> p = up_parser s \<and> fs \<noteq> [] \<and> p \<noteq> ''''"
  by (auto simp: FileUpload_handleSubmit_def)

lemma FileUpload_step_call:
  "snd (FileUpload_step ev s) = Some (fs, p) \<Longrightarrow> fs = up_files s \<and> fs \<noteq> [] \<and> p \<noteq> ''''"
  by (cases ev) (auto simp: FileUpload_handleSubmit_call)

text \<open>
  The files of the form are PDF files in every state a session reaches, so every call of
  \<open>onSubmit\<close> carries PDF files only. Induction on the session, the state generalised.
\<close>

lemma FileUpload_run_calls:
  "list_all isPdf (up_files s) \<Longrightarrow> (fs, p) \<in> set (snd (FileUpload_run evs s)) \<Longrightarrow>
   fs \<noteq> [] \<and> list_all isPdf fs \<and> p \<noteq> ''''"
proof (induction evs arbitrary: s)
  case Nil
  then show ?case by simp
next
  case (Cons ev evs)
  obtain s' call where st: "FileUpload_step ev s = (s', call)"
    by (cases "FileUpload_step ev s")
  from FileUpload_step_inv [OF Cons.prems(1), of ev] st
  have inv': "list_all isPdf (up_files s')" by simp
  from Cons.prems(2) st
  have "(call = Some (fs, p)) \<or> (fs, p) \<in> set (snd (FileUpload_run evs s'))"
    by (auto split: prod.splits option.splits)
  then show ?case
  proof
    assume "call = Some (fs, p)"
    with st have "snd (FileUpload_step ev s) = Some (fs, p)" by simp
    from FileUpload_step_call [OF this] Cons.prems(1) show ?thesis by blast
  next
    assume "(fs, p) \<in> set (snd (FileUpload_run evs s'))"
    with Cons.IH [OF inv'] show ?thesis .
  qed
qed

text \<open>
  C5. Bad input is rejected at submission. Of the files dropped, \<open>onDrop\<close> retains those
  of MIME type \<open>application/pdf\<close> (and keeps the earlier selection when there is none);
  \<open>handleSubmit\<close> calls \<open>onSubmit\<close> exactly when the retained list is not empty and a
  parser is selected, and with that list; and in every session of drops, parser choices and
  submissions that starts from the empty form, every call of \<open>onSubmit\<close> carries a list
  that is not empty and holds PDF files only.
\<close>

theorem FileUpload_rejects_bad_input:
  "up_files (onDrop acceptedFiles s) =
     (if filter isPdf acceptedFiles = [] then up_files s else filter isPdf acceptedFiles) \<and>
   (snd (FileUpload_handleSubmit s) = Some (fs, p) \<longleftrightarrow>
      fs = up_files s \<and> p = up_parser s \<and> fs \<noteq> [] \<and> p \<noteq> '''') \<and>
   ((fs, p) \<in> set (snd (FileUpload_run evs init_upload)) \<longrightarrow>
      fs \<noteq> [] \<and> (\<forall>f \<in> set fs. file_type f = ''application/pdf''))"
proof -
  have "list_all isPdf (up_files init_upload)" by (simp add: init_upload_def)
  from FileUpload_run_calls [OF this, of fs p evs]
  have "(fs, p) \<in> set (snd (FileUpload_run evs init_upload)) \<longrightarrow>
      fs \<noteq> [] \<and> (\<forall>f \<in> set fs. file_type f = ''application/pdf'')"
    by (simp add: list_all_iff isPdf_def)
  with onDrop_files [of acceptedFiles s] FileUpload_handleSubmit_call [of s fs p]
  show ?thesis by blast
qed

text \<open>
  The theorem at a session: a submission of the empty form, a drop of a text file, a
  submission, a drop of a text file and a PDF file, a submission. Only the last
  submission calls \<open>onSubmit\<close>, with the PDF file alone.
\<close>

theorem FileUpload_rejects_bad_input_witness:
  "snd (FileUpload_run [Submit, Drop [textFile], Submit, Drop [textFile, pdfFile], Submit]
          init_upload) = [([pdfFile], ''pypdf'')] \<and>
   [pdfFile] \<noteq> [] \<and> file_type pdfFile = ''application/pdf''"
  using FileUpload_rejects_bad_input [of "[textFile, pdfFile]" init_upload "[pdfFile]"
      "''pypdf''" "[Submit, Drop [textFile], Submit, Drop [textFile, pdfFile], Submit]"]
  by (simp add: init_upload_def onDrop_def FileUpload_handleSubmit_def isPdf_def
      pdfFile_def textFile_def Let_def)

section \<open>The markdown of a job\<close>

lemma set_upsertJob: "set (upsertJob prev job) \<subseteq> insert job (set prev)"
proof (cases "findIndex (\<lambda>j. jobId j = jobId job) prev")
  case None
  then show ?thesis by (auto simp: upsertJob_def)
next
  case (Some idx)
  then show ?thesis
    using set_update_subset_insert [of prev idx job] by (simp add: upsertJob_def)
qed

text \<open>
  A property of jobs that holds of every created record and of the record of every response
  received holds of every job of the list, throughout a session.
\<close>

lemma all_upsertJob:
  "\<forall>j \<in> set js. P j \<Longrightarrow> P job \<Longrightarrow> \<forall>j \<in> set (upsertJob js job). P j"
  using set_upsertJob [of js job] by auto

lemma all_foldl_newJob:
  "\<forall>u. P (newJob u) \<Longrightarrow> \<forall>j \<in> set js. P j \<Longrightarrow>
   \<forall>j \<in> set (foldl (\<lambda>js u. upsertJob js (newJob u)) js us). P j"
proof (induction us arbitrary: js)
  case Nil
  then show ?case by simp
next
  case (Cons u us)
  from Cons.prems have "\<forall>j \<in> set (upsertJob js (newJob u)). P j"
    by (intro all_upsertJob) simp_all
  from Cons.IH [OF Cons.prems(1) this] show ?case by simp
qed

text \<open>
  What a run of \<open>poll\<close> with the callback of \<open>handleSubmit\<close> does to the job list: it
  writes the record of the response it received, and nothing after a failed request.
\<close>

lemma poll_jobs:
  "snd (poll cfg t0 (uj_job_id u) (onStatusUpdate u) apiGet now js) =
     (case apiGet (''/api/v1/documents/'' @ uj_job_id u) of
        Inr st \<Rightarrow> upsertJob js (statusJob u st)
      | Inl e \<Rightarrow> js)"
  by (simp add: poll_def getJobStatus_def status_url_def onStatusUpdate_def Let_def
      split: sum.splits)

lemma all_page_step:
  assumes "\<forall>u. P (newJob u)" "\<forall>(u, st) \<in> set (received ev). P (statusJob u st)"
    "\<forall>j \<in> set (pg_jobs s). P j"
  shows "\<forall>j \<in> set (pg_jobs (page_step ev s)). P j"
proof (cases ev)
  case (Uploaded uploaded)
  show ?thesis
  proof (cases uploaded)
    case (Inl err)
    with Uploaded assms(3) show ?thesis by (simp add: Home_handleSubmit_def)
  next
    case (Inr uploadJobs)
    from all_foldl_newJob [of P, OF assms(1) assms(3), of uploadJobs] Uploaded Inr
    show ?thesis by (simp add: Home_handleSubmit_def)
  qed
next
  case (Polled u cfg startTime apiGet now)
  show ?thesis
  proof (cases "apiGet (''/api/v1/documents/'' @ uj_job_id u)")
    case (Inl e)
    with Polled assms(3) show ?thesis by (simp add: poll_jobs)
  next
    case (Inr st)
    with Polled assms(2) have "P (statusJob u st)" by simp
    from all_upsertJob [OF assms(3) this] Polled Inr show ?thesis by (simp add: poll_jobs)
  qed
next
  case Cleared
  then show ?thesis by simp
qed

lemma all_page_run:
  assumes "\<forall>u. P (newJob u)"
  shows "\<forall>ev \<in> set evs. \<forall>(u, st) \<in> set (received ev). P (statusJob u st) \<Longrightarrow>
         \<forall>j \<in> set (pg_jobs s). P j \<Longrightarrow> \<forall>j \<in> set (pg_jobs (page_run evs s)). P j"
proof (induction evs arbitrary: s)
  case Nil
  then show ?case by (simp add: page_run_def)
next
  case (Cons ev evs)
  from Cons.prems have "\<forall>j \<in> set (pg_jobs (page_step ev s)). P j"
    by (intro all_page_step [OF assms]) simp_all
  from Cons.IH [OF _ this] Cons.prems(1) show ?case by (simp add: page_run_def)
qed

text \<open>
  C4, as stated: the markdown of a job is empty unless its status is \<open>done\<close>, and a job
  of status \<open>error\<close> carries no markdown. It fails after a run of \<open>poll\<close> that receives
  a status response of status \<open>error\<close> with text in its markdown, as the pipeline sends
  when the summarizer fails after the extraction: the callback of \<open>handleSubmit\<close> stores
  the status and the markdown of the response.
\<close>

theorem error_job_markdown_counterexample:
  "snd (poll default_config 0 ''job-1'' (onStatusUpdate upload1)
          (serverWith (statusOf ''error'' ''Failed to parse PDF'' '''')) 40 [newJob upload1]) =
     [\<lparr>jobId = ''job-1'', filename = ''a.pdf'', status = ''error'', summary = '''',
       markdown = ''Failed to parse PDF''\<rparr>] \<and>
   status \<lparr>jobId = ''job-1'', filename = ''a.pdf'', status = ''error'', summary = '''',
       markdown = ''Failed to parse PDF''\<rparr> \<noteq> ''done'' \<and>
   markdown \<lparr>jobId = ''job-1'', filename = ''a.pdf'', status = ''error'', summary = '''',
       markdown = ''Failed to parse PDF''\<rparr> \<noteq> ''''"
  by (simp add: poll_def getJobStatus_def onStatusUpdate_def upsertJob_def
      statusJob_def statusOf_def serverWith_def status_url_def newJob_def upload1_def)

text \<open>
  C4, amended. In every session of uploads, polls and resets from the empty page, every job
  of the client's list is either as it was created, with the status \<open>pending\<close> and an
  empty markdown, or holds the status and the markdown of a status response received for
  it, unchanged. So the markdown of every job is empty unless the status of the job is
  \<open>done\<close> or \<open>error\<close>, whenever the status responses received are so. A job of status
  \<open>error\<close> can carry markdown.
\<close>

theorem job_markdown_follows_response:
  "(list_all responseOk evs \<and> job \<in> set (pg_jobs (page_run evs init_page)) \<longrightarrow>
      status job = ''done'' \<or> status job = ''error'' \<or> markdown job = '''') \<and>
   (job \<in> set (pg_jobs (page_run evs init_page)) \<longrightarrow>
      (\<exists>u. job = newJob u) \<or>
      (\<exists>ev \<in> set evs. \<exists>(u, st) \<in> set (received ev). job = statusJob u st)) \<and>
   status (newJob u) = ''pending'' \<and> markdown (newJob u) = '''' \<and>
   status (statusJob u st) = js_status st \<and> markdown (statusJob u st) = js_markdown st \<and>
   (apiGet (''/api/v1/documents/'' @ uj_job_id u) = Inr st \<longrightarrow>
      statusJob u st \<in> set (pg_jobs (page_step (Polled u cfg t0 apiGet now) s)))"
proof -
  have 1: "list_all responseOk evs \<and> job \<in> set (pg_jobs (page_run evs init_page)) \<longrightarrow>
      status job = ''done'' \<or> status job = ''error'' \<or> markdown job = ''''"
  proof (intro impI, elim conjE)
    assume r: "list_all responseOk evs" and j: "job \<in> set (pg_jobs (page_run evs init_page))"
    let ?P = "\<lambda>j. markdownOk (status j) (markdown j)"
    have a: "\<forall>u. ?P (newJob u)" by (simp add: newJob_def markdownOk_def)
    have b: "\<forall>ev \<in> set evs. \<forall>(u, st) \<in> set (received ev). ?P (statusJob u st)"
      using r by (auto simp: list_all_iff responseOk_def statusJob_def)
    have c: "\<forall>j \<in> set (pg_jobs init_page). ?P j" by (simp add: init_page_def)
    from all_page_run [of ?P, OF a b c] j show
      "status job = ''done'' \<or> status job = ''error'' \<or> markdown job = ''''"
      by (auto simp: markdownOk_def)
  qed
  have 2: "job \<in> set (pg_jobs (page_run evs init_page)) \<longrightarrow>
      (\<exists>u. job = newJob u) \<or>
      (\<exists>ev \<in> set evs. \<exists>(u, st) \<in> set (received ev). job = statusJob u st)"
  proof
    assume j: "job \<in> set (pg_jobs (page_run evs init_page))"
    let ?P = "\<lambda>j. (\<exists>u. j = newJob u) \<or>
      (\<exists>ev \<in> set evs. \<exists>(u, st) \<in> set (received ev). j = statusJob u st)"
    have a: "\<forall>u. ?P (newJob u)" by blast
    have b: "\<forall>ev \<in> set evs. \<forall>(u, st) \<in> set (received ev). ?P (statusJob u st)" by blast
    have c: "\<forall>j \<in> set (pg_jobs init_page). ?P j" by (simp add: init_page_def)
    from all_page_run [of ?P, OF a b c] j show "?P job" by blast
  qed
  have 3: "apiGet (''/api/v1/documents/'' @ uj_job_id u) = Inr st \<longrightarrow>
      statusJob u st \<in> set (pg_jobs (page_step (Polled u cfg t0 apiGet now) s))"
    by (simp add: poll_jobs upsertJob_mem)
  have 4: "status (newJob u) = ''pending'' \<and> markdown (newJob u) = '''' \<and>
    status (statusJob u st) = js_status st \<and> markdown (statusJob u st) = js_markdown st"
    by (simp add: newJob_def statusJob_def)
  from 1 2 3 4 show ?thesis by blast
qed

text \<open>
  The theorem at a session: two files are uploaded, the first job is polled and is
  processing, a poll of the second job fails, the first job is polled again and has failed
  with a text. The first job ends with the status \<open>error\<close> and that text, the second is
  still pending with an empty markdown.
\<close>

theorem job_markdown_follows_response_witness:
  "list_all responseOk session1 \<and>
   pg_jobs (page_run session1 init_page) =
     [\<lparr>jobId = ''job-1'', filename = ''a.pdf'', status = ''error'', summary = '''',
       markdown = ''Failed to parse PDF''\<rparr>,
      \<lparr>jobId = ''job-2'', filename = ''b.pdf'', status = ''pending'', summary = '''',
       markdown = ''''\<rparr>]"
  using job_markdown_follows_response [of session1 "newJob upload2" upload1
      "statusOf ''error'' ''Failed to parse PDF'' ''''"
      "serverWith (statusOf ''error'' ''Failed to parse PDF'' '''')" default_config 0 150
      init_page]
  by (simp add: session1_def page_run_def Home_handleSubmit_def poll_def getJobStatus_def
      onStatusUpdate_def Let_def upsertJob_def responseOk_def
      newJob_def statusJob_def statusOf_def serverWith_def serverDown_def status_url_def
      upload1_def upload2_def init_page_def markdownOk_def)

section \<open>Acknowledging twice\<close>

lemma find_filter_None: "find p (filter (\<lambda>x. \<not> p x) xs) = None"
  by (simp add: find_None_iff)

text \<open>
  An entry that is enqueued, claimed and acknowledged: the claim returns entry 0 with
  token 0 and one pending delivery, the acknowledgement ends it and marks entry 0.
\<close>

lemma ack_example:
  "fst (claim ''workers'' ''w1'' 10 (enqueue entry1 empty_queue)) = Some (0, 0) \<and>
   cg_pending (q_groups (snd (claim ''workers'' ''w1'' 10 (enqueue entry1 empty_queue)))
     ''workers'') = [\<lparr>dl_token = 0, dl_entry = 0, dl_consumer = ''w1'', dl_at = 10\<rparr>] \<and>
   cg_pending (q_groups (ack ''workers'' 0
     (snd (claim ''workers'' ''w1'' 10 (enqueue entry1 empty_queue)))) ''workers'') = [] \<and>
   cg_processed (q_groups (ack ''workers'' 0
     (snd (claim ''workers'' ''w1'' 10 (enqueue entry1 empty_queue)))) ''workers'') = [0]"
  by (simp add: claim_def deliver_def ack_def enqueue_def empty_queue_def empty_group_def
      Let_def)

text \<open>
  C2. Acknowledging is idempotent: for every queue state, group and delivery token,
  acknowledging a second time leaves the queue as the first acknowledgement left it.
\<close>

theorem ack_idempotent: "ack grp token (ack grp token q) = ack grp token q"
proof (cases "find (\<lambda>d. dl_token d = token) (cg_pending (q_groups q grp))")
  case None
  then show ?thesis by (simp add: ack_def Let_def)
next
  case (Some d)
  have "find (\<lambda>d. dl_token d = token)
          (filter (\<lambda>d. dl_token d \<noteq> token) (cg_pending (q_groups q grp))) = None"
    by (rule find_filter_None)
  with Some show ?thesis by (simp add: ack_def Let_def)
qed

section \<open>One holder per queue entry\<close>

lemma group_ok_empty: "group_ok empty_group"
  by (simp add: group_ok_def empty_group_def)

lemma group_ok_deliver_new:
  assumes "group_ok g"
  shows "group_ok (g\<lparr>cg_delivered := Suc (cg_delivered g), cg_tokens := Suc (cg_tokens g),
           cg_pending := cg_pending g @
             [\<lparr>dl_token = t, dl_entry = cg_delivered g, dl_consumer = c, dl_at = now\<rparr>]\<rparr>)"
  using assms by (auto simp: group_ok_def list_all_iff intro: less_SucI)

lemma group_ok_deliver_again:
  assumes "group_ok g" "cg_claimable g = e # rest"
  shows "group_ok (g\<lparr>cg_claimable := rest, cg_tokens := Suc (cg_tokens g),
           cg_pending := cg_pending g @
             [\<lparr>dl_token = t, dl_entry = e, dl_consumer = c, dl_at = now\<rparr>]\<rparr>)"
  using assms by (auto simp: group_ok_def list_all_iff)

lemma group_ok_ack:
  assumes "group_ok g"
  shows "group_ok (g\<lparr>cg_pending := filter P (cg_pending g), cg_processed := ps\<rparr>)"
  using assms by (auto simp: group_ok_def list_all_iff distinct_map_filter)

lemma distinct_map_split:
  assumes "distinct (map f xs)"
  shows "distinct (map f (filter (\<lambda>x. \<not> P x) xs)) \<and> distinct (map f (filter P xs)) \<and>
         f ` {x \<in> set xs. \<not> P x} \<inter> f ` {x \<in> set xs. P x} = {}"
proof -
  from assms have inj: "inj_on f (set xs)" by (simp add: distinct_map)
  have "f ` {x \<in> set xs. \<not> P x} \<inter> f ` {x \<in> set xs. P x} = {}"
    using inj by (auto dest: inj_onD)
  with assms show ?thesis by (simp add: distinct_map_filter)
qed

lemma group_ok_reclaim:
  assumes "group_ok g"
  shows "group_ok (g\<lparr>cg_pending := filter (\<lambda>d. \<not> P d) (cg_pending g),
           cg_claimable := cg_claimable g @ map dl_entry (filter P (cg_pending g))\<rparr>)"
proof -
  from assms have d: "distinct (map dl_entry (cg_pending g))" "distinct (cg_claimable g)"
    "dl_entry ` set (cg_pending g) \<inter> set (cg_claimable g) = {}"
    by (auto simp: group_ok_def)
  from distinct_map_split [OF d(1), of P] d(2,3) assms show ?thesis
    by (auto simp: group_ok_def list_all_iff)
qed

lemma queue_ok_upd:
  "queue_ok q \<Longrightarrow> group_ok g \<Longrightarrow> queue_ok (q\<lparr>q_groups := (q_groups q)(grp := g)\<rparr>)"
  by (simp add: queue_ok_def)

text \<open>Every operation of the queue keeps the invariant, in every group.\<close>

lemma queue_ok_apply: "queue_ok q \<Longrightarrow> queue_ok (apply_op op q)"
proof (cases op)
  case (Enqueue entry)
  assume "queue_ok q"
  with Enqueue show ?thesis by (simp add: queue_ok_def enqueue_def)
next
  case (Claim grp consumer now)
  assume ok: "queue_ok q"
  then have g: "group_ok (q_groups q grp)" by (simp add: queue_ok_def)
  show ?thesis
  proof (cases "cg_claimable (q_groups q grp)")
    case Nil
    with Claim ok g group_ok_deliver_new [OF g] show ?thesis
      by (auto simp: claim_def deliver_def Let_def intro!: queue_ok_upd)
  next
    case (Cons e rest)
    with Claim ok g group_ok_deliver_again [OF g Cons] show ?thesis
      by (auto simp: claim_def deliver_def Let_def intro!: queue_ok_upd)
  qed
next
  case (Ack grp token)
  assume ok: "queue_ok q"
  then have g: "group_ok (q_groups q grp)" by (simp add: queue_ok_def)
  with Ack ok group_ok_ack [OF g] show ?thesis
    by (auto simp: ack_def Let_def split: option.splits intro!: queue_ok_upd)
next
  case (Reclaim grp idle_threshold now)
  assume ok: "queue_ok q"
  then have g: "group_ok (q_groups q grp)" by (simp add: queue_ok_def)
  with Reclaim ok group_ok_reclaim [OF g] show ?thesis
    by (auto simp: reclaim_def Let_def intro!: queue_ok_upd)
qed

lemma queue_ok_run: "queue_ok q \<Longrightarrow> queue_ok (run_queue ops q)"
  unfolding run_queue_def by (induction ops arbitrary: q) (simp_all add: queue_ok_apply)

lemma queue_ok_empty: "queue_ok empty_queue"
  by (simp add: queue_ok_def empty_queue_def group_ok_empty)

lemma group_ok_exclusive:
  assumes "group_ok g" "d \<in> set (cg_pending g)" "d' \<in> set (cg_pending g)"
    "dl_entry d = dl_entry d'"
  shows "d = d'"
proof -
  from assms(1) have "distinct (map dl_entry (cg_pending g))" by (simp add: group_ok_def)
  then have "inj_on dl_entry (set (cg_pending g))" by (simp add: distinct_map)
  with assms(2-4) show ?thesis by (auto dest: inj_onD)
qed

lemma group_ok_not_claimable:
  assumes "group_ok g" "d \<in> set (cg_pending g)"
  shows "dl_entry d \<notin> set (cg_claimable g)"
  using assms by (auto simp: group_ok_def)

lemma claim_result:
  assumes "fst (claim grp consumer now q) = Some (e, t)"
  shows "(cg_claimable (q_groups q grp) \<noteq> [] \<and> e = hd (cg_claimable (q_groups q grp))) \<or>
         (cg_claimable (q_groups q grp) = [] \<and> e = cg_delivered (q_groups q grp))"
  using assms by (auto simp: claim_def deliver_def Let_def split: list.splits if_splits)

lemma claim_not_held:
  assumes "queue_ok q" "fst (claim grp consumer now q) = Some (e, t)"
    "d \<in> set (cg_pending (q_groups q grp))"
  shows "dl_entry d \<noteq> e"
proof -
  from assms(1) have g: "group_ok (q_groups q grp)" by (simp add: queue_ok_def)
  from claim_result [OF assms(2)] show ?thesis
  proof
    assume "cg_claimable (q_groups q grp) \<noteq> [] \<and> e = hd (cg_claimable (q_groups q grp))"
    then have "e \<in> set (cg_claimable (q_groups q grp))" by simp
    with group_ok_not_claimable [OF g assms(3)] show ?thesis by auto
  next
    assume "cg_claimable (q_groups q grp) = [] \<and> e = cg_delivered (q_groups q grp)"
    with g assms(3) show ?thesis by (auto simp: group_ok_def list_all_iff)
  qed
qed

text \<open>
  C3. No two workers hold the delivery token for the same queue entry at the same time.
  A worker holds an entry while a delivery of the entry to it is pending in the group. In
  every state the queue reaches from the empty queue, by the operations of any number of
  workers in any order, and in every consumer group: two pending deliveries of one entry
  are one and the same delivery, with one token and one consumer; an entry with a pending
  delivery is not claimable; and a claim never returns an entry that has a pending
  delivery. That nothing but the queue provides the exclusion is a statement about the
  design, with no content in a state of the queue.
\<close>

theorem queue_exclusive:
  "(d \<in> set (cg_pending (q_groups (run_queue ops empty_queue) grp)) \<and>
    d' \<in> set (cg_pending (q_groups (run_queue ops empty_queue) grp)) \<and>
    dl_entry d = dl_entry d' \<longrightarrow> d = d') \<and>
   (d \<in> set (cg_pending (q_groups (run_queue ops empty_queue) grp)) \<longrightarrow>
      dl_entry d \<notin> set (cg_claimable (q_groups (run_queue ops empty_queue) grp))) \<and>
   (d \<in> set (cg_pending (q_groups (run_queue ops empty_queue) grp)) \<and>
    fst (claim grp consumer now (run_queue ops empty_queue)) = Some (e, t) \<longrightarrow>
      dl_entry d \<noteq> e)"
proof -
  have ok: "queue_ok (run_queue ops empty_queue)"
    by (rule queue_ok_run [OF queue_ok_empty])
  then have g: "group_ok (q_groups (run_queue ops empty_queue) grp)"
    by (simp add: queue_ok_def)
  from group_ok_exclusive [OF g, of d d'] group_ok_not_claimable [OF g, of d]
    claim_not_held [OF ok, of grp consumer now e t d]
  show ?thesis by blast
qed

text \<open>
  The theorem at a history: two entries are enqueued, worker \<open>w1\<close> claims the first and
  \<open>w2\<close> the second, both deliveries are reclaimed as idle, and \<open>w2\<close> claims again and
  gets the first entry. Then \<open>w2\<close> alone holds the first entry, the second is claimable,
  and a claim of a third worker returns the second entry, not the first.
\<close>

theorem queue_exclusive_witness:
  "cg_pending (q_groups (run_queue ops1 empty_queue) ''workers'') =
     [\<lparr>dl_token = 2, dl_entry = 0, dl_consumer = ''w2'', dl_at = 46\<rparr>] \<and>
   cg_claimable (q_groups (run_queue ops1 empty_queue) ''workers'') = [1] \<and>
   fst (claim ''workers'' ''w3'' 50 (run_queue ops1 empty_queue)) = Some (1, 3)"
  using queue_exclusive [of "\<lparr>dl_token = 2, dl_entry = 0, dl_consumer = ''w2'', dl_at = 46\<rparr>"
      ops1 "''workers''" "\<lparr>dl_token = 2, dl_entry = 0, dl_consumer = ''w2'', dl_at = 46\<rparr>"
      "''w3''" 50 1 3]
  by (simp add: ops1_def run_queue_def claim_def deliver_def reclaim_def enqueue_def
      empty_queue_def empty_group_def Let_def)

end
